theory Spec2Isabelle
  imports Complex_Main "HOL-Library.Multiset" "HOL-Library.Product_Lexorder"
begin

section \<open>The task scheduler of TaskManager.tsx\<close>

text \<open>
  The development embeds the two functions of \<^verbatim>\<open>src/components/TaskManager.tsx\<close> that
  carry logic: \<^verbatim>\<open>generateTimeSlots\<close> (lines 11-18) and \<^verbatim>\<open>generateSchedule\<close> (lines 83-151).

  Conventions of the embedding:
  \<^item> JavaScript numbers that the code uses as integers (hours, ranks, durations, indices)
    are \<open>int\<close> or \<open>nat\<close>; fractional durations are outside the model.
  \<^item> The field \<^verbatim>\<open>id\<close> of a task is \<open>task_id\<close>; the two string enumerations are datatypes.
  \<^item> The field \<^verbatim>\<open>deadline\<close> holds the time value \<^verbatim>\<open>new Date(deadline).getTime()\<close> of the
    deadline string, the only way the scheduler reads it.
  \<^item> A result of type \<open>option\<close> is \<open>None\<close> exactly when the loop
    \<^verbatim>\<open>while (!scheduled)\<close> never ends; a thrown exception is a result \<open>Inl\<close>.

  The placement loop is embedded over two calendars.
  \<^item> \<open>place_task\<close>, \<open>place_all\<close> and \<open>generateSchedule\<close> run over the calendar of the
    specification, which has calendar-date granularity and no time zones: a date is a day
    number, the next day is the number plus one, and the day number is its own key. The
    properties of the placement that do not depend on date arithmetic are stated there.
  \<^item> \<open>place_task_dated\<close>, \<open>place_all_dated\<close> and \<open>generateSchedule_dated\<close> run over the
    \<^verbatim>\<open>Date\<close> of ECMAScript: a time value in milliseconds or an invalid date,
    \<^verbatim>\<open>setDate(getDate() + 1)\<close> through the local time of the host's time zone,
    \<^verbatim>\<open>toISOString()\<close> as the UTC day of the time value, with its \<^verbatim>\<open>RangeError\<close> on an invalid
    date. The properties that depend on the date are stated there.
  Both use the same scan, the same assignment loop and the same ranking. Lemma
  \<open>generateSchedule_dated_ideal\<close> links them: in a time zone of fixed UTC offset, a
  schedule returned over the \<^verbatim>\<open>Date\<close> is the schedule returned over the day numbers.
\<close>

subsection \<open>Data model\<close>

datatype importance_level = ImportanceASAP | High | Average | Low

datatype priority_class = PriorityASAP | HardDeadline | SoftDeadline | NoDeadline

record Task =
  task_id :: int
  title :: string
  duration :: int
  importance :: importance_level
  priority :: priority_class
  deadline :: int

type_synonym DaySlots = "string \<rightharpoonup> Task"

type_synonym Schedule = "int \<rightharpoonup> DaySlots"

subsection \<open>generateTimeSlots\<close>

text \<open>The template literal \<^verbatim>\<open>`${hour}`\<close>: the decimal digits of an integer, with a sign.\<close>

definition digit_char :: "nat \<Rightarrow> char" where
  "digit_char d = ''0123456789'' ! d"

function digits_of :: "nat \<Rightarrow> string" where
  "digits_of n = (if n < 10 then [digit_char n] else digits_of (n div 10) @ [digit_char (n mod 10)])"
  by pat_completeness auto
termination
  by (relation "measure id") auto

definition number_toString :: "int \<Rightarrow> string" where
  "number_toString i = (if i < 0 then CHR ''-'' # digits_of (nat (- i)) else digits_of (nat i))"

text \<open>The \<^verbatim>\<open>for\<close> loop of lines 13-16, with the array \<^verbatim>\<open>slots\<close> as accumulator.\<close>

function slots_loop :: "int \<Rightarrow> int \<Rightarrow> string list \<Rightarrow> string list" where
  "slots_loop hour endHour slots =
     (if hour < endHour
      then slots_loop (hour + 1) endHour
             (slots @ [number_toString hour @ '':00'', number_toString hour @ '':30''])
      else slots)"
  by pat_completeness auto
termination
  by (relation "measure (\<lambda>(hour, endHour, slots). nat (endHour - hour))") auto

definition generateTimeSlots :: "int \<Rightarrow> int \<Rightarrow> string list" where
  "generateTimeSlots startHour endHour = slots_loop startHour endHour []"

subsection \<open>generateSchedule: ranking\<close>

fun priorityOrder :: "priority_class \<Rightarrow> int" where
  "priorityOrder PriorityASAP = 0"
| "priorityOrder HardDeadline = 1"
| "priorityOrder SoftDeadline = 2"
| "priorityOrder NoDeadline = 3"

fun importanceOrder :: "importance_level \<Rightarrow> int" where
  "importanceOrder ImportanceASAP = 0"
| "importanceOrder High = 1"
| "importanceOrder Average = 2"
| "importanceOrder Low = 3"

text \<open>The comparator of lines 98-106.\<close>

definition compareTasks :: "Task \<Rightarrow> Task \<Rightarrow> int" where
  "compareTasks a b =
     (if priorityOrder (priority a) \<noteq> priorityOrder (priority b)
      then priorityOrder (priority a) - priorityOrder (priority b)
      else if importanceOrder (importance a) \<noteq> importanceOrder (importance b)
      then importanceOrder (importance a) - importanceOrder (importance b)
      else deadline a - deadline b)"

text \<open>
  \<^verbatim>\<open>Array.prototype.sort\<close> is stable (ECMAScript 2019): an element goes before the
  elements it does not compare greater than, so equal elements keep their order.
  It is modelled as a stable insertion sort driven by the comparator.
\<close>

fun insert_sorted :: "('a \<Rightarrow> 'a \<Rightarrow> int) \<Rightarrow> 'a \<Rightarrow> 'a list \<Rightarrow> 'a list" where
  "insert_sorted cmp x [] = [x]"
| "insert_sorted cmp x (y # ys) =
     (if cmp x y \<le> 0 then x # y # ys else y # insert_sorted cmp x ys)"

definition array_sort :: "('a \<Rightarrow> 'a \<Rightarrow> int) \<Rightarrow> 'a list \<Rightarrow> 'a list" where
  "array_sort cmp xs = foldr (insert_sorted cmp) xs []"

definition sortedTasks :: "Task list \<Rightarrow> Task list" where
  "sortedTasks tasks = array_sort compareTasks tasks"

subsection \<open>generateSchedule: placement\<close>

record SchedulerState =
  schedule :: Schedule
  currentDate :: int
  currentSlotIndex :: nat

text \<open>\<^verbatim>\<open>Math.ceil(taskDuration / 30)\<close> on an integer duration.\<close>

definition slotsNeeded :: "Task \<Rightarrow> int" where
  "slotsNeeded task = - ((- duration task) div 30)"

text \<open>
  The scan of lines 124-140 over one day: it returns the position \<open>i\<close> at which the
  count of consecutive free slots reaches \<open>slotsNeeded\<close>, with that count, or \<open>None\<close>
  when the loop runs off the grid.
\<close>

function scan_slots :: "DaySlots \<Rightarrow> string list \<Rightarrow> int \<Rightarrow> nat \<Rightarrow> nat \<Rightarrow> (nat \<times> nat) option" where
  "scan_slots day timeSlots needed i availableSlots =
     (if i < length timeSlots then
        (if day (timeSlots ! i) = None then
           (if int (availableSlots + 1) = needed then Some (i, availableSlots + 1)
            else scan_slots day timeSlots needed (i + 1) (availableSlots + 1))
         else scan_slots day timeSlots needed (i + 1) 0)
      else None)"
  by pat_completeness auto
termination
  by (relation "measure (\<lambda>(day, timeSlots, needed, i, availableSlots). length timeSlots - i)") auto

text \<open>The assignment loop of lines 130-132, for \<open>j\<close> from \<open>i - availableSlots + 1\<close> to \<open>i\<close>.\<close>

definition assign_slots :: "DaySlots \<Rightarrow> string list \<Rightarrow> nat \<Rightarrow> nat \<Rightarrow> Task \<Rightarrow> DaySlots" where
  "assign_slots day timeSlots i availableSlots task =
     fold (\<lambda>j d. d(timeSlots ! j \<mapsto> task)) [i + 1 - availableSlots ..< i + 1] day"

text \<open>
  The loop \<^verbatim>\<open>while (!scheduled)\<close> of lines 118-147 for one task. Line 120 creates the
  day's sub-mapping when it is absent.
\<close>

partial_function (option) place_task :: "string list \<Rightarrow> Task \<Rightarrow> SchedulerState \<Rightarrow> SchedulerState option" where
  "place_task timeSlots task st =
     (let dateString = currentDate st;
          day = (case schedule st dateString of None \<Rightarrow> Map.empty | Some d \<Rightarrow> d);
          sched = (schedule st)(dateString \<mapsto> day)
      in case scan_slots day timeSlots (slotsNeeded task) (currentSlotIndex st) 0 of
           Some (i, availableSlots) \<Rightarrow>
             Some \<lparr>schedule = sched(dateString \<mapsto> assign_slots day timeSlots i availableSlots task),
                   currentDate = currentDate st,
                   currentSlotIndex = i + 1\<rparr>
         | None \<Rightarrow>
             place_task timeSlots task
               \<lparr>schedule = sched, currentDate = currentDate st + 1, currentSlotIndex = 0\<rparr>)"

text \<open>The \<^verbatim>\<open>forEach\<close> of line 113 over the ranked tasks.\<close>

fun place_all :: "string list \<Rightarrow> Task list \<Rightarrow> SchedulerState \<Rightarrow> SchedulerState option" where
  "place_all timeSlots [] st = Some st"
| "place_all timeSlots (task # rest) st =
     (case place_task timeSlots task st of
        None \<Rightarrow> None
      | Some st' \<Rightarrow> place_all timeSlots rest st')"

text \<open>\<open>today\<close> is the value of \<^verbatim>\<open>new Date()\<close> at line 110.\<close>

definition initial_state :: "int \<Rightarrow> SchedulerState" where
  "initial_state today = \<lparr>schedule = Map.empty, currentDate = today, currentSlotIndex = 0\<rparr>"

definition generateSchedule :: "Task list \<Rightarrow> int \<Rightarrow> Schedule option" where
  "generateSchedule tasks today =
     map_option schedule
       (place_all (generateTimeSlots 9 17) (sortedTasks tasks) (initial_state today))"

subsection \<open>generateSchedule over the Date of ECMAScript\<close>

text \<open>
  The only exception the code can raise: \<^verbatim>\<open>toISOString()\<close> at line 119 throws a
  \<^verbatim>\<open>RangeError\<close> when the date is invalid.
\<close>

datatype error = RangeError

text \<open>
  A \<^verbatim>\<open>Date\<close> holds a time value, the milliseconds since the epoch, or is invalid (\<open>None\<close>,
  the time value \<^verbatim>\<open>NaN\<close>). \<open>TimeClip\<close> is the abstract operation of ECMAScript that makes a
  time value beyond 8.64e15 milliseconds invalid.
\<close>

type_synonym Date = "int option"

definition msPerDay :: int where
  "msPerDay = 86400000"

definition TimeClip :: "int \<Rightarrow> Date" where
  "TimeClip t = (if 8640000000000000 < \<bar>t\<bar> then None else Some t)"

text \<open>
  The time zone of the host is a parameter: the abstract operations \<open>LocalTime\<close> and \<open>UTC\<close>
  of ECMAScript, which convert a time value to local time and back.
\<close>

record TimeZone =
  LocalTime :: "int \<Rightarrow> int"
  UTC :: "int \<Rightarrow> int"

text \<open>
  \<^verbatim>\<open>currentDate.setDate(currentDate.getDate() + 1)\<close> of line 144: the day of the month of the
  local time plus one, at the same local time of day, is the local time plus one day;
  the result is converted back and clipped. An invalid date stays invalid.
\<close>

definition setDate_next :: "TimeZone \<Rightarrow> Date \<Rightarrow> Date" where
  "setDate_next tz date =
     (case date of
        None \<Rightarrow> None
      | Some t \<Rightarrow> TimeClip (UTC tz (LocalTime tz t + msPerDay)))"

text \<open>
  \<^verbatim>\<open>currentDate.toISOString().split("T")[0]\<close> of line 119: the UTC date of the time value.
  The date string is held as the UTC day number, which it renders one to one.
\<close>

definition toISOString_date :: "Date \<Rightarrow> error + int" where
  "toISOString_date date =
     (case date of None \<Rightarrow> Inl RangeError | Some t \<Rightarrow> Inr (t div msPerDay))"

record DatedState =
  dated_schedule :: Schedule
  dated_currentDate :: Date
  dated_currentSlotIndex :: nat

text \<open>The loop of lines 118-147 again, with the \<^verbatim>\<open>Date\<close> in place of the day number.\<close>

partial_function (option) place_task_dated ::
  "TimeZone \<Rightarrow> string list \<Rightarrow> Task \<Rightarrow> DatedState \<Rightarrow> (error + DatedState) option" where
  "place_task_dated tz timeSlots task st =
     (case toISOString_date (dated_currentDate st) of
        Inl e \<Rightarrow> Some (Inl e)
      | Inr dateString \<Rightarrow>
          (let day = (case dated_schedule st dateString of None \<Rightarrow> Map.empty | Some d \<Rightarrow> d);
               sched = (dated_schedule st)(dateString \<mapsto> day)
           in case scan_slots day timeSlots (slotsNeeded task) (dated_currentSlotIndex st) 0 of
                Some (i, availableSlots) \<Rightarrow>
                  Some (Inr \<lparr>dated_schedule =
                               sched(dateString \<mapsto> assign_slots day timeSlots i availableSlots task),
                             dated_currentDate = dated_currentDate st,
                             dated_currentSlotIndex = i + 1\<rparr>)
              | None \<Rightarrow>
                  place_task_dated tz timeSlots task
                    \<lparr>dated_schedule = sched,
                     dated_currentDate = setDate_next tz (dated_currentDate st),
                     dated_currentSlotIndex = 0\<rparr>))"

fun place_all_dated ::
  "TimeZone \<Rightarrow> string list \<Rightarrow> Task list \<Rightarrow> DatedState \<Rightarrow> (error + DatedState) option" where
  "place_all_dated tz timeSlots [] st = Some (Inr st)"
| "place_all_dated tz timeSlots (task # rest) st =
     (case place_task_dated tz timeSlots task st of
        None \<Rightarrow> None
      | Some (Inl e) \<Rightarrow> Some (Inl e)
      | Some (Inr st') \<Rightarrow> place_all_dated tz timeSlots rest st')"

text \<open>\<open>now\<close> is the time value of \<^verbatim>\<open>new Date()\<close> at line 110.\<close>

definition generateSchedule_dated :: "TimeZone \<Rightarrow> Task list \<Rightarrow> int \<Rightarrow> (error + Schedule) option" where
  "generateSchedule_dated tz tasks now =
     map_option (map_sum id dated_schedule)
       (place_all_dated tz (generateTimeSlots 9 17) (sortedTasks tasks)
          \<lparr>dated_schedule = Map.empty, dated_currentDate = TimeClip now,
           dated_currentSlotIndex = 0\<rparr>)"

subsection \<open>Notions used to state the properties\<close>

text \<open>
  The ranking key of a task and the lexicographic order on keys, as the specification
  words them: priority rank, then importance rank, then deadline.
\<close>

definition rank_key :: "Task \<Rightarrow> int \<times> int \<times> int" where
  "rank_key t = (priorityOrder (priority t), importanceOrder (importance t), deadline t)"

fun lex_le :: "int \<times> int \<times> int \<Rightarrow> int \<times> int \<times> int \<Rightarrow> bool" where
  "lex_le (p, i, d) (p', i', d') = (p < p' \<or> (p = p' \<and> (i < i' \<or> (i = i' \<and> d \<le> d'))))"

text \<open>\<^verbatim>\<open>schedule[date]?.[slot]\<close>: the task recorded under a date and a slot label, if any.\<close>

definition slot_task :: "Schedule \<Rightarrow> int \<Rightarrow> string \<Rightarrow> Task option" where
  "slot_task s d l = (case s d of None \<Rightarrow> None | Some day \<Rightarrow> day l)"





text \<open>
  The decimal numeral of an integer, as the specification's \<open><h>\<close> reads: digits only,
  no leading zero except for zero itself, a minus sign for a negative number, and the
  value the digits denote. It is defined from the character codes, apart from
  \<open>number_toString\<close>.
\<close>

definition is_digit :: "char \<Rightarrow> bool" where
  "is_digit c \<longleftrightarrow> c \<in> set ''0123456789''"

definition digit_value :: "char \<Rightarrow> nat" where
  "digit_value c = of_char c - 48"

definition decimal_value :: "string \<Rightarrow> nat" where
  "decimal_value ds = foldl (\<lambda>a c. 10 * a + digit_value c) 0 ds"

definition nat_numeral :: "string \<Rightarrow> nat \<Rightarrow> bool" where
  "nat_numeral ds n \<longleftrightarrow>
     ds \<noteq> [] \<and> list_all is_digit ds \<and> (hd ds = CHR ''0'' \<longrightarrow> ds = ''0'') \<and> decimal_value ds = n"

definition int_numeral :: "string \<Rightarrow> int \<Rightarrow> bool" where
  "int_numeral s i \<longleftrightarrow>
     (if i < 0 then s \<noteq> [] \<and> hd s = CHR ''-'' \<and> nat_numeral (tl s) (nat (- i))
      else nat_numeral s (nat i))"


text \<open>The state over the day numbers that a state over the \<^verbatim>\<open>Date\<close> stands for.\<close>

definition ideal_state :: "DatedState \<Rightarrow> SchedulerState" where
  "ideal_state st =
     \<lparr>schedule = dated_schedule st,
      currentDate = (case dated_currentDate st of None \<Rightarrow> 0 | Some time \<Rightarrow> time div msPerDay),
      currentSlotIndex = dated_currentSlotIndex st\<rparr>"

text \<open>A family of concrete tasks, for the instances at which the theorems are checked.\<close>

definition example_task :: "int \<Rightarrow> int \<Rightarrow> priority_class \<Rightarrow> Task" where
  "example_task n minutes p =
     \<lparr>task_id = n, title = ''task'', duration = minutes, importance = Average,
      priority = p, deadline = 0\<rparr>"


text \<open>
  Two time zones: UTC, and New York around the end of daylight saving time on
  2026-11-01 at 06:00 UTC (four hours behind UTC before it, five hours after). The time
  value 1793490300000 is 2026-10-31T23:45Z, on UTC day 20757.
\<close>

definition utc_zone :: TimeZone where
  "utc_zone = \<lparr>LocalTime = (\<lambda>t. t), UTC = (\<lambda>t. t)\<rparr>"

definition new_york_autumn_2026 :: TimeZone where
  "new_york_autumn_2026 =
     \<lparr>LocalTime = (\<lambda>t. t - (if t < 1793512800000 then 14400000 else 18000000)),
      UTC = (\<lambda>t. t + (if t < 1793512800000 - 14400000 then 14400000 else 18000000))\<rparr>"

section \<open>Properties\<close>

declare scan_slots.simps [simp del]

declare slots_loop.simps [simp del]

subsection \<open>The slot grid\<close>

lemma slots_loop_eq:
  "slots_loop hour endHour slots =
     slots @ concat (map (\<lambda>h. [number_toString h @ '':00'', number_toString h @ '':30'']) [hour..endHour - 1])"
proof (induction hour endHour slots rule: slots_loop.induct)
  case (1 hour endHour slots)
  show ?case
  proof (cases "hour < endHour")
    case True
    then have "[hour..endHour - 1] = hour # [hour + 1..endHour - 1]"
      by (simp add: upto_rec1)
    with True 1 show ?thesis by (subst slots_loop.simps) simp
  next
    case False
    then show ?thesis by (subst slots_loop.simps) simp
  qed
qed

lemma timeSlots_default:
  "generateTimeSlots 9 17 =
     [''9:00'', ''9:30'', ''10:00'', ''10:30'', ''11:00'', ''11:30'', ''12:00'', ''12:30'',
      ''13:00'', ''13:30'', ''14:00'', ''14:30'', ''15:00'', ''15:30'', ''16:00'', ''16:30'']"
  by (simp add: generateTimeSlots_def slots_loop.simps number_toString_def digit_char_def)

lemma timeSlots_length: "length (generateTimeSlots 9 17) = 16"
  by (simp add: timeSlots_default)


subsection \<open>The decimal numeral of the hour\<close>

declare digits_of.simps [simp del]

lemma digit_char_props:
  assumes "d < 10"
  shows "is_digit (digit_char d)" and "digit_value (digit_char d) = d"
    and "digit_char d = CHR ''0'' \<longleftrightarrow> d = 0"
proof -
  from assms have "d \<in> {0, 1, 2, 3, 4, 5, 6, 7, 8, 9}" by auto
  then show "is_digit (digit_char d)" and "digit_value (digit_char d) = d"
    and "digit_char d = CHR ''0'' \<longleftrightarrow> d = 0"
    by (auto simp: is_digit_def digit_value_def digit_char_def)
qed

lemma digit_char_value:
  assumes "is_digit c"
  shows "digit_char (digit_value c) = c" and "digit_value c < 10"
  using assms by (auto simp: is_digit_def digit_value_def digit_char_def)

lemma decimal_value_snoc:
  "decimal_value (ds @ [c]) = 10 * decimal_value ds + digit_value c"
  by (simp add: decimal_value_def)

lemma digits_of_nonempty: "digits_of n \<noteq> []"
  by (subst digits_of.simps) simp

lemma digits_of_numeral: "nat_numeral (digits_of n) n \<and> (n \<noteq> 0 \<longrightarrow> hd (digits_of n) \<noteq> CHR ''0'')"
proof (induction n rule: digits_of.induct)
  case (1 n)
  show ?case
  proof (cases "n < 10")
    case True
    then have "digits_of n = [digit_char n]"
      by (subst digits_of.simps) simp
    with True show ?thesis
      by (simp add: nat_numeral_def digit_char_props decimal_value_def)
  next
    case False
    then have unfold: "digits_of n = digits_of (n div 10) @ [digit_char (n mod 10)]"
      by (subst digits_of.simps) simp
    from False have pos: "n div 10 \<noteq> 0" by simp
    from 1 False pos have IH: "nat_numeral (digits_of (n div 10)) (n div 10)"
      and lead: "hd (digits_of (n div 10)) \<noteq> CHR ''0''" by simp_all
    have hd: "hd (digits_of n) = hd (digits_of (n div 10))"
      using IH by (simp add: unfold nat_numeral_def)
    have "decimal_value (digits_of n) = n"
      using IH by (simp add: unfold decimal_value_snoc nat_numeral_def digit_char_props)
    with IH lead hd show ?thesis
      by (simp add: nat_numeral_def unfold digit_char_props)
  qed
qed

lemma decimal_value_lower: "a \<le> foldl (\<lambda>a c. 10 * a + digit_value c) a ds"
proof (induction ds arbitrary: a)
  case Nil
  then show ?case by simp
next
  case (Cons c ds)
  have "a \<le> 10 * a + digit_value c" by simp
  also have "\<dots> \<le> foldl (\<lambda>a c. 10 * a + digit_value c) (10 * a + digit_value c) ds"
    by (rule Cons.IH)
  finally show ?case by simp
qed

lemma numeral_is_digits_of:
  assumes "nat_numeral ds n"
  shows "ds = digits_of n"
  using assms
proof (induction ds arbitrary: n rule: rev_induct)
  case Nil
  then show ?case by (simp add: nat_numeral_def)
next
  case (snoc c pre)
  from snoc.prems have c: "is_digit c" and digs: "list_all is_digit pre"
    and val: "n = 10 * decimal_value pre + digit_value c"
    and lead: "hd (pre @ [c]) = CHR ''0'' \<longrightarrow> pre @ [c] = ''0''"
    by (simp_all add: nat_numeral_def decimal_value_snoc)
  show ?case
  proof (cases "pre = []")
    case True
    with val have "n = digit_value c" by (simp add: decimal_value_def)
    with c True show ?thesis
      by (subst digits_of.simps) (simp add: digit_char_value)
  next
    case False
    with lead have nz: "hd pre \<noteq> CHR ''0''" by auto
    from False obtain c0 rest where pre: "pre = c0 # rest" by (cases pre) auto
    with digs nz have "is_digit c0" "c0 \<noteq> CHR ''0''" by simp_all
    then have "0 < digit_value c0"
      by (auto simp: is_digit_def digit_value_def)
    moreover have "digit_value c0 \<le> decimal_value pre"
      using decimal_value_lower [of "digit_value c0" rest] by (simp add: decimal_value_def pre)
    ultimately have big: "0 < decimal_value pre" by simp
    have "nat_numeral pre (decimal_value pre)"
      using False digs nz by (simp add: nat_numeral_def)
    then have IH: "pre = digits_of (decimal_value pre)" by (rule snoc.IH)
    have unfold: "digits_of n = digits_of (n div 10) @ [digit_char (n mod 10)]"
      using big val by (subst digits_of.simps) simp
    have "n div 10 = decimal_value pre" "n mod 10 = digit_value c"
      using val digit_char_value(2) [OF c] by simp_all
    with unfold IH c show ?thesis
      by (simp add: digit_char_value)
  qed
qed

lemma number_toString_numeral: "int_numeral (number_toString h) h"
  using digits_of_numeral [of "nat h"] digits_of_numeral [of "nat (- h)"]
  by (simp add: int_numeral_def number_toString_def)

lemma numeral_is_number_toString:
  assumes "int_numeral s h"
  shows "s = number_toString h"
proof (cases "h < 0")
  case True
  with assms have "s \<noteq> []" "hd s = CHR ''-''" "nat_numeral (tl s) (nat (- h))"
    by (simp_all add: int_numeral_def)
  from numeral_is_digits_of [OF this(3)] this(1,2) True show ?thesis
    by (cases s) (simp_all add: number_toString_def)
next
  case False
  with assms have "nat_numeral s (nat h)" by (simp add: int_numeral_def)
  from numeral_is_digits_of [OF this] False show ?thesis
    by (simp add: number_toString_def)
qed

subsection \<open>Ranking\<close>

lemma lex_le_prod: "lex_le a b \<longleftrightarrow> a \<le> b"
  by (cases a; cases b) (auto simp: less_eq_prod_def less_prod_def)

lemma compareTasks_le: "compareTasks a b \<le> 0 \<longleftrightarrow> rank_key a \<le> rank_key b"
  by (auto simp: compareTasks_def rank_key_def less_eq_prod_def less_prod_def)

lemma insert_sorted_insort: "insert_sorted compareTasks x ys = insort_key rank_key x ys"
  by (induction ys) (simp_all add: compareTasks_le)

lemma sortedTasks_sort_key: "sortedTasks tasks = sort_key rank_key tasks"
  by (induction tasks) (simp_all add: sortedTasks_def array_sort_def insert_sorted_insort)

lemma sortedTasks_set: "set (sortedTasks tasks) = set tasks"
  by (simp add: sortedTasks_sort_key)



lemma sortedTasks_perm:
  assumes "mset xs = mset ys"
    and "\<forall>a \<in> set xs. \<forall>b \<in> set xs. rank_key a = rank_key b \<longrightarrow> a = b"
  shows "sortedTasks xs = sortedTasks ys"
proof -
  have sets: "set ys = set xs"
    using assms(1) by (metis set_mset_mset)
  have flt: "filter (\<lambda>x. rank_key k = rank_key x) zs = replicate (count (mset zs) k) k"
    if "k \<in> set xs" "set zs = set xs" for k zs
  proof -
    have "filter (\<lambda>x. rank_key k = rank_key x) zs = filter ((=) k) zs"
      using that assms(2) by (intro filter_cong) auto
    then show ?thesis by (simp add: replicate_count_mset_eq_filter_eq)
  qed
  have "sort_key rank_key xs = sort_key rank_key ys"
  proof (rule properties_for_sort_key)
    show "mset (sort_key rank_key ys) = mset xs"
      using assms(1) by simp
    show "sorted (map rank_key (sort_key rank_key ys))"
      by simp
    fix k assume "k \<in> set (sort_key rank_key ys)"
    then have k: "k \<in> set xs" using sets by simp
    have "filter (\<lambda>x. rank_key k = rank_key x) (sort_key rank_key ys)
            = filter (\<lambda>x. rank_key k = rank_key x) ys"
      using sort_key_stable [of rank_key "rank_key k" ys] by (simp add: eq_commute)
    also have "\<dots> = filter (\<lambda>x. rank_key k = rank_key x) xs"
      using flt [OF k sets] flt [OF k refl] assms(1) by simp
    finally show "filter (\<lambda>x. rank_key k = rank_key x) (sort_key rank_key ys)
            = filter (\<lambda>x. rank_key k = rank_key x) xs" .
  qed
  then show ?thesis by (simp add: sortedTasks_sort_key)
qed


subsection \<open>Placement\<close>



lemma scan_slots_unfit:
  assumes "a \<le> i" and "needed \<le> 0 \<or> int (length ts) < needed"
  shows "scan_slots day ts needed i a = None"
  using assms
proof (induction day ts needed i a rule: scan_slots.induct)
  case (1 day ts needed i a)
  show ?case
  proof (cases "i < length ts")
    case False
    then show ?thesis by (simp add: scan_slots.simps [of day ts needed i a])
  next
    case True
    with "1.prems" have ne: "int (a + 1) \<noteq> needed" by auto
    show ?thesis
    proof (cases "day (ts ! i)")
      case None
      have "scan_slots day ts needed (i + 1) (a + 1) = None"
        using "1.IH"(1) [OF True None ne] "1.prems" by simp
      with True None ne show ?thesis
        by (simp add: scan_slots.simps [of day ts needed i a])
    next
      case (Some u)
      then have occ: "day (ts ! i) \<noteq> None" by simp
      have "scan_slots day ts needed (i + 1) 0 = None"
        using "1.IH"(2) [OF True occ] "1.prems" by simp
      with True Some show ?thesis
        by (simp add: scan_slots.simps [of day ts needed i a])
    qed
  qed
qed

























lemma slotsNeeded_ceiling: "slotsNeeded t = \<lceil>real_of_int (duration t) / 30\<rceil>"
  using ceiling_divide_eq_div [where 'a = real, of "duration t" 30] by (simp add: slotsNeeded_def)

subsection \<open>Placement over the Date\<close>

lemma place_task_dated_invalid:
  assumes "dated_currentDate st = None"
  shows "place_task_dated tz ts t st = Some (Inl RangeError)"
  using assms by (subst place_task_dated.simps) (simp add: toISOString_date_def)


lemma place_task_dated_advance:
  assumes "dated_currentDate st = Some time"
    and "scan_slots (case dated_schedule st (time div msPerDay) of None \<Rightarrow> Map.empty | Some d \<Rightarrow> d)
           ts (slotsNeeded t) (dated_currentSlotIndex st) 0 = None"
  shows "place_task_dated tz ts t st =
           place_task_dated tz ts t
             \<lparr>dated_schedule = (dated_schedule st)(time div msPerDay \<mapsto>
                  (case dated_schedule st (time div msPerDay) of None \<Rightarrow> Map.empty | Some d \<Rightarrow> d)),
              dated_currentDate = setDate_next tz (Some time), dated_currentSlotIndex = 0\<rparr>"
  using assms by (subst place_task_dated.simps) (simp add: toISOString_date_def Let_def)

lemma place_task_dated_fits:
  assumes "place_task_dated tz ts t st = Some (Inr st')"
  shows "0 < slotsNeeded t \<and> slotsNeeded t \<le> int (length ts)"
proof -
  have "(\<exists>st'. y = Inr st') \<longrightarrow> 0 < slotsNeeded t \<and> slotsNeeded t \<le> int (length ts)"
    if "place_task_dated tz ts t st = Some y" for y
  proof (rule place_task_dated.raw_induct
    [where P = "\<lambda>tz ts t st y. (\<exists>st'. y = Inr st') \<longrightarrow> 0 < slotsNeeded t \<and> slotsNeeded t \<le> int (length ts)",
     OF _ that])
  fix f tz' ts' t' st0 y
  assume IH: "\<And>tz ts t st y. f tz ts t st = Some y \<Longrightarrow>
          (\<exists>st'. y = Inr st') \<longrightarrow> 0 < slotsNeeded t \<and> slotsNeeded t \<le> int (length ts)"
    and body: "(case toISOString_date (dated_currentDate st0) of
        Inl e \<Rightarrow> Some (Inl e)
      | Inr dateString \<Rightarrow>
          (let day = (case dated_schedule st0 dateString of None \<Rightarrow> Map.empty | Some d \<Rightarrow> d);
               sched = (dated_schedule st0)(dateString \<mapsto> day)
           in case scan_slots day ts' (slotsNeeded t') (dated_currentSlotIndex st0) 0 of
                Some (i, availableSlots) \<Rightarrow>
                  Some (Inr \<lparr>dated_schedule =
                               sched(dateString \<mapsto> assign_slots day ts' i availableSlots t'),
                             dated_currentDate = dated_currentDate st0,
                             dated_currentSlotIndex = i + 1\<rparr>)
              | None \<Rightarrow>
                  f tz' ts' t'
                    \<lparr>dated_schedule = sched,
                     dated_currentDate = setDate_next tz' (dated_currentDate st0),
                     dated_currentSlotIndex = 0\<rparr>)) = Some y"
  show "(\<exists>st'. y = Inr st') \<longrightarrow> 0 < slotsNeeded t' \<and> slotsNeeded t' \<le> int (length ts')"
  proof (intro impI, rule ccontr)
    assume ret: "\<exists>st'. y = Inr st'"
      and neg: "\<not> (0 < slotsNeeded t' \<and> slotsNeeded t' \<le> int (length ts'))"
    then have scan: "scan_slots d ts' (slotsNeeded t') (dated_currentSlotIndex st0) 0 = None" for d
      by (intro scan_slots_unfit) auto
    show False
    proof (cases "dated_currentDate st0")
      case None
      with body ret show False by (auto simp: toISOString_date_def)
    next
      case (Some time)
      with body scan have "f tz' ts' t'
             \<lparr>dated_schedule = (dated_schedule st0)(time div msPerDay \<mapsto>
                 (case dated_schedule st0 (time div msPerDay) of None \<Rightarrow> Map.empty | Some d \<Rightarrow> d)),
              dated_currentDate = setDate_next tz' (Some time),
              dated_currentSlotIndex = 0\<rparr> = Some y"
        by (simp add: toISOString_date_def Let_def)
      from IH [OF this] ret neg show False by simp
    qed
  qed
  qed
  from this [OF assms] show ?thesis by simp
qed

lemma error_is_RangeError: "e = RangeError"
  by (cases e) simp

lemma place_all_dated_unfit:
  assumes "t \<in> set xs" and "slotsNeeded t \<le> 0 \<or> int (length ts) < slotsNeeded t"
  shows "place_all_dated tz ts xs st = None \<or> place_all_dated tz ts xs st = Some (Inl RangeError)"
  using assms
proof (induction xs arbitrary: st)
  case Nil
  then show ?case by simp
next
  case (Cons x xs)
  show ?case
  proof (cases "place_task_dated tz ts x st")
    case None
    then show ?thesis by simp
  next
    case (Some r)
    show ?thesis
    proof (cases r)
      case (Inl e)
      with Some show ?thesis by (simp add: error_is_RangeError [of e])
    next
      case (Inr st1)
      with Some place_task_dated_fits [of tz ts x st st1] Cons.prems have "t \<in> set xs" by auto
      from Cons.IH [OF this Cons.prems(2)] Some Inr show ?thesis by simp
    qed
  qed
qed

lemma place_task_dated_range_error:
  assumes forward: "\<forall>time. time < UTC tz (LocalTime tz time + msPerDay)"
    and unfit: "slotsNeeded t \<le> 0 \<or> int (length ts) < slotsNeeded t"
  shows "place_task_dated tz ts t st = Some (Inl RangeError)"
proof (induction "case dated_currentDate st of None \<Rightarrow> 0 | Some time \<Rightarrow> nat (8640000000000000 - time) + 1"
    arbitrary: st rule: less_induct)
  case less
  show ?case
  proof (cases "dated_currentDate st")
    case None
    then show ?thesis by (rule place_task_dated_invalid)
  next
    case (Some time)
    define nxt where "nxt = UTC tz (LocalTime tz time + msPerDay)"
    define st1 where "st1 = \<lparr>dated_schedule = (dated_schedule st)(time div msPerDay \<mapsto>
                  (case dated_schedule st (time div msPerDay) of None \<Rightarrow> Map.empty | Some d \<Rightarrow> d)),
              dated_currentDate = setDate_next tz (Some time), dated_currentSlotIndex = 0\<rparr>"
    have "scan_slots d ts (slotsNeeded t) (dated_currentSlotIndex st) 0 = None" for d
      using unfit by (intro scan_slots_unfit) auto
    then have step: "place_task_dated tz ts t st = place_task_dated tz ts t st1"
      unfolding st1_def by (intro place_task_dated_advance Some)
    have fw: "time < nxt" using forward by (simp add: nxt_def)
    have "(case dated_currentDate st1 of None \<Rightarrow> 0 | Some time \<Rightarrow> nat (8640000000000000 - time) + 1)
            < (case dated_currentDate st of None \<Rightarrow> 0 | Some time \<Rightarrow> nat (8640000000000000 - time) + 1)"
      using fw by (auto simp: st1_def Some setDate_next_def TimeClip_def nxt_def [symmetric])
    from less [OF this] step show ?thesis by simp
  qed
qed







lemma place_task_dated_ideal:
  assumes fixed: "\<forall>time. UTC tz (LocalTime tz time + msPerDay) = time + msPerDay"
    and run: "place_task_dated tz ts t st = Some (Inr st')"
  shows "dated_currentDate st \<noteq> None \<and> dated_currentDate st' \<noteq> None
       \<and> place_task ts t (ideal_state st) = Some (ideal_state st')"
proof -
  have "tz = tz \<longrightarrow> (\<forall>st'. y = Inr st' \<longrightarrow>
          dated_currentDate st \<noteq> None \<and> dated_currentDate st' \<noteq> None
          \<and> place_task ts t (ideal_state st) = Some (ideal_state st'))"
    if "place_task_dated tz ts t st = Some y" for y
  proof (rule place_task_dated.raw_induct
    [where P = "\<lambda>tz' ts t st y. tz' = tz \<longrightarrow> (\<forall>st'. y = Inr st' \<longrightarrow>
          dated_currentDate st \<noteq> None \<and> dated_currentDate st' \<noteq> None
          \<and> place_task ts t (ideal_state st) = Some (ideal_state st'))",
     OF _ that])
    fix f tz' ts' t' and st0 :: DatedState and y
    assume IH: "\<And>tz' ts t st y. f tz' ts t st = Some y \<Longrightarrow> tz' = tz \<longrightarrow> (\<forall>st'. y = Inr st' \<longrightarrow>
          dated_currentDate st \<noteq> None \<and> dated_currentDate st' \<noteq> None
          \<and> place_task ts t (ideal_state st) = Some (ideal_state st'))"
      and body: "(case toISOString_date (dated_currentDate st0) of
        Inl e \<Rightarrow> Some (Inl e)
      | Inr dateString \<Rightarrow>
          (let day = (case dated_schedule st0 dateString of None \<Rightarrow> Map.empty | Some d \<Rightarrow> d);
               sched = (dated_schedule st0)(dateString \<mapsto> day)
           in case scan_slots day ts' (slotsNeeded t') (dated_currentSlotIndex st0) 0 of
                Some (i, availableSlots) \<Rightarrow>
                  Some (Inr \<lparr>dated_schedule =
                               sched(dateString \<mapsto> assign_slots day ts' i availableSlots t'),
                             dated_currentDate = dated_currentDate st0,
                             dated_currentSlotIndex = i + 1\<rparr>)
              | None \<Rightarrow>
                  f tz' ts' t'
                    \<lparr>dated_schedule = sched,
                     dated_currentDate = setDate_next tz' (dated_currentDate st0),
                     dated_currentSlotIndex = 0\<rparr>)) = Some y"
    show "tz' = tz \<longrightarrow> (\<forall>st'. y = Inr st' \<longrightarrow>
          dated_currentDate st0 \<noteq> None \<and> dated_currentDate st' \<noteq> None
          \<and> place_task ts' t' (ideal_state st0) = Some (ideal_state st'))"
    proof (intro impI allI)
      fix st' assume tz: "tz' = tz" and y: "y = Inr st'"
      from body y obtain time where time: "dated_currentDate st0 = Some time"
        by (cases "dated_currentDate st0") (auto simp: toISOString_date_def)
      define k where "k = time div msPerDay"
      define day where "day = (case dated_schedule st0 k of None \<Rightarrow> Map.empty | Some d \<Rightarrow> d)"
      show "dated_currentDate st0 \<noteq> None \<and> dated_currentDate st' \<noteq> None
          \<and> place_task ts' t' (ideal_state st0) = Some (ideal_state st')"
      proof (cases "scan_slots day ts' (slotsNeeded t') (dated_currentSlotIndex st0) 0")
        case (Some found)
        obtain i a where found: "found = (i, a)" by (cases found)
        from body y time Some found have st': "st' =
            \<lparr>dated_schedule = (dated_schedule st0)(k \<mapsto> assign_slots day ts' i a t'),
             dated_currentDate = Some time, dated_currentSlotIndex = i + 1\<rparr>"
          by (simp add: toISOString_date_def Let_def k_def [symmetric] day_def [symmetric])
        have "place_task ts' t' (ideal_state st0) = Some (ideal_state st')"
          using Some found
          by (subst place_task.simps)
             (simp add: ideal_state_def time st' Let_def k_def [symmetric] day_def [symmetric])
        with time st' show ?thesis by simp
      next
        case None
        define st1 where "st1 = \<lparr>dated_schedule = (dated_schedule st0)(k \<mapsto> day),
                     dated_currentDate = setDate_next tz (Some time),
                     dated_currentSlotIndex = 0\<rparr>"
        from body y time None tz have "f tz ts' t' st1 = Some (Inr st')"
          by (simp add: toISOString_date_def Let_def k_def [symmetric] day_def [symmetric] st1_def)
        from IH [OF this, rule_format, OF refl refl]
        have d1: "dated_currentDate st1 \<noteq> None" and d': "dated_currentDate st' \<noteq> None"
          and rec: "place_task ts' t' (ideal_state st1) = Some (ideal_state st')"
          by simp_all
        from d1 fixed have "dated_currentDate st1 = Some (time + msPerDay)"
          by (simp add: st1_def setDate_next_def TimeClip_def split: if_splits)
        moreover have "(time + msPerDay) div msPerDay = k + 1"
          by (simp add: k_def msPerDay_def)
        ultimately have ideal1: "ideal_state st1 =
            \<lparr>schedule = (dated_schedule st0)(k \<mapsto> day), currentDate = k + 1, currentSlotIndex = 0\<rparr>"
          by (simp add: ideal_state_def st1_def)
        have "place_task ts' t' (ideal_state st0) = place_task ts' t' (ideal_state st1)"
          using None
          by (subst place_task.simps)
             (simp add: ideal_state_def time Let_def k_def [symmetric] day_def [symmetric]
                        ideal1 [unfolded ideal_state_def])
        with rec time d' show ?thesis by simp
      qed
    qed
  qed
  with run show ?thesis by simp
qed

lemma place_all_dated_ideal:
  assumes fixed: "\<forall>time. UTC tz (LocalTime tz time + msPerDay) = time + msPerDay"
    and "place_all_dated tz ts xs st = Some (Inr st')"
  shows "place_all ts xs (ideal_state st) = Some (ideal_state st')"
  using assms(2)
proof (induction xs arbitrary: st)
  case Nil
  then show ?case by simp
next
  case (Cons x xs)
  from Cons.prems obtain st1 where
    one: "place_task_dated tz ts x st = Some (Inr st1)"
    and rest: "place_all_dated tz ts xs st1 = Some (Inr st')"
    by (auto split: option.splits sum.splits)
  from place_task_dated_ideal [OF fixed one] Cons.IH [OF rest] show ?case by simp
qed

lemma generateSchedule_dated_ideal:
  assumes "\<forall>time. UTC tz (LocalTime tz time + msPerDay) = time + msPerDay"
    and "\<bar>now\<bar> \<le> 8640000000000000"
    and "generateSchedule_dated tz tasks now = Some (Inr sched)"
  shows "generateSchedule tasks (now div msPerDay) = Some sched"
proof -
  from assms(3) obtain r where
    r: "place_all_dated tz (generateTimeSlots 9 17) (sortedTasks tasks)
            \<lparr>dated_schedule = Map.empty, dated_currentDate = TimeClip now,
             dated_currentSlotIndex = 0\<rparr> = Some r"
    and m: "map_sum id dated_schedule r = Inr sched"
    by (auto simp: generateSchedule_dated_def)
  from m obtain st' where st': "r = Inr st'" and sched: "dated_schedule st' = sched"
    by (cases r) simp_all
  note run = r [unfolded st']
  have "ideal_state \<lparr>dated_schedule = Map.empty, dated_currentDate = TimeClip now,
             dated_currentSlotIndex = 0\<rparr> = initial_state (now div msPerDay)"
    using assms(2) by (simp add: ideal_state_def initial_state_def TimeClip_def)
  with place_all_dated_ideal [OF assms(1) run] sched show ?thesis
    by (simp add: generateSchedule_def ideal_state_def)
qed

text \<open>The definitions to unfold when a schedule is computed on concrete tasks.\<close>

lemmas schedule_eval =
  generateSchedule_def timeSlots_default sortedTasks_def array_sort_def compareTasks_def
  initial_state_def place_task.simps scan_slots.simps assign_slots_def slotsNeeded_def
  Let_def slot_task_def example_task_def

section \<open>The claims\<close>

text \<open>
  C9. For integers \<open>startHour < endHour\<close> the grid is the sequence of labels
  \<open><h>:00\<close>, \<open><h>:30\<close> for \<open>h\<close> from \<open>startHour\<close> up to, not including, \<open>endHour\<close>, in
  increasing order: two labels an hour. The text \<open><h>\<close> of a label is the decimal numeral
  of \<open>h\<close>: a string is the decimal numeral of an integer exactly when it is what
  \<open>number_toString\<close> gives for it. The default bounds 9 and 17 give 16 slots.
\<close>

theorem generateTimeSlots_labels:
  assumes "startHour < endHour"
  shows "generateTimeSlots startHour endHour =
           concat (map (\<lambda>h. [number_toString h @ '':00'', number_toString h @ '':30''])
                       [startHour .. endHour - 1])
       \<and> (\<forall>h str. int_numeral str h \<longleftrightarrow> str = number_toString h)
       \<and> length (generateTimeSlots startHour endHour) = 2 * nat (endHour - startHour)
       \<and> length (generateTimeSlots 9 17) = 16"
proof -
  have "length (slots_loop hour endHour slots) = length slots + 2 * nat (endHour - hour)"
    for hour slots
  proof (induction hour endHour slots rule: slots_loop.induct)
    case (1 hour endHour slots)
    show ?case
    proof (cases "hour < endHour")
      case True
      then have "nat (endHour - hour) = Suc (nat (endHour - (hour + 1)))" by simp
      with True 1 show ?thesis by (subst slots_loop.simps) simp
    next
      case False
      then show ?thesis by (subst slots_loop.simps) simp
    qed
  qed
  then have "length (generateTimeSlots startHour endHour) = 2 * nat (endHour - startHour)"
    by (simp add: generateTimeSlots_def)
  moreover have "generateTimeSlots startHour endHour =
           concat (map (\<lambda>h. [number_toString h @ '':00'', number_toString h @ '':30''])
                       [startHour .. endHour - 1])"
    by (simp add: generateTimeSlots_def slots_loop_eq)
  moreover have "\<forall>h str. int_numeral str h \<longleftrightarrow> str = number_toString h"
    using number_toString_numeral numeral_is_number_toString by blast
  ultimately show ?thesis by (simp add: timeSlots_length)
qed

theorem generateTimeSlots_labels_witness:
  "(-1 :: int) < 1
   \<and> generateTimeSlots (-1) 1 = [''-1:00'', ''-1:30'', ''0:00'', ''0:30'']
   \<and> int_numeral ''-1'' (-1) \<and> int_numeral ''0'' 0 \<and> int_numeral ''23'' 23
   \<and> number_toString 23 = ''23'' \<and> number_toString 100 = ''100''
   \<and> length (generateTimeSlots 9 17) = 16"
proof -
  have e: "int_numeral ''-1'' (-1)" "int_numeral ''0'' 0" "int_numeral ''23'' 23" "int_numeral ''100'' 100"
    by (simp_all add: int_numeral_def nat_numeral_def is_digit_def decimal_value_def digit_value_def)
  note T = generateTimeSlots_labels [of "-1" 1]
  from T e have s: "number_toString (-1) = ''-1''" "number_toString 0 = ''0''"
    "number_toString 23 = ''23''" "number_toString 100 = ''100''"
    by simp_all
  from T s e show ?thesis
    by (simp add: upto.simps)
qed

text \<open>
  C10. For \<open>endHour \<le> startHour\<close> the grid is empty. The generator is a total function
  (its loop terminates on all integers) and has no error result.
\<close>

theorem generateTimeSlots_inverted_bounds:
  assumes "endHour \<le> startHour"
  shows "generateTimeSlots startHour endHour = []"
  using assms by (simp add: generateTimeSlots_def slots_loop.simps)

theorem generateTimeSlots_inverted_bounds_witness:
  "(9 :: int) \<le> 17 \<and> generateTimeSlots 17 9 = [] \<and> generateTimeSlots 9 9 = []"
  using generateTimeSlots_inverted_bounds [of 9 17] generateTimeSlots_inverted_bounds [of 9 9]
  by simp

text \<open>
  C1. The ranked list is a permutation of the input, sorted by the lexicographic order on
  (priority rank, importance rank, deadline), and stable: the tasks of any one key keep
  their input order. The priority ranks are ASAP 0, hard deadline 1, soft deadline 2,
  no deadline 3; the importance ranks are ASAP 0, high 1, average 2, low 3.
\<close>

theorem ranking_stable_lexicographic:
  "mset (sortedTasks tasks) = mset tasks
   \<and> sorted_wrt (\<lambda>a b. lex_le (rank_key a) (rank_key b)) (sortedTasks tasks)
   \<and> (\<forall>k. filter (\<lambda>t. rank_key t = k) (sortedTasks tasks) = filter (\<lambda>t. rank_key t = k) tasks)
   \<and> map priorityOrder [PriorityASAP, HardDeadline, SoftDeadline, NoDeadline] = [0, 1, 2, 3]
   \<and> map importanceOrder [ImportanceASAP, High, Average, Low] = [0, 1, 2, 3]"
proof -
  have "sorted (map rank_key (sortedTasks tasks))"
    by (simp add: sortedTasks_sort_key)
  then have "sorted_wrt (\<lambda>a b. lex_le (rank_key a) (rank_key b)) (sortedTasks tasks)"
    by (simp add: sorted_wrt_map lex_le_prod)
  moreover have "\<forall>k. filter (\<lambda>t. rank_key t = k) (sortedTasks tasks) = filter (\<lambda>t. rank_key t = k) tasks"
    by (simp add: sortedTasks_sort_key sort_key_stable)
  ultimately show ?thesis by (simp add: sortedTasks_sort_key)
qed

theorem ranking_stable_lexicographic_witness:
  "sortedTasks [example_task 1 30 SoftDeadline, example_task 2 30 PriorityASAP,
                example_task 3 30 SoftDeadline]
     = [example_task 2 30 PriorityASAP, example_task 1 30 SoftDeadline,
        example_task 3 30 SoftDeadline]"
proof -
  note ranking_stable_lexicographic
    [of "[example_task 1 30 SoftDeadline, example_task 2 30 PriorityASAP, example_task 3 30 SoftDeadline]"]
  then show ?thesis
    by (simp add: sortedTasks_def array_sort_def compareTasks_def example_task_def)
qed









text \<open>
  C6. The claim does not hold of the code: \<^verbatim>\<open>generateSchedule\<close> has no
  \<^verbatim>\<open>UnschedulableTaskError\<close>. What holds: when some task of the input needs more than 16
  slots, the call returns no schedule and raises no such error; it does not return at
  all, or it ends in the \<^verbatim>\<open>RangeError\<close> that \<^verbatim>\<open>toISOString\<close> throws once the advancing date
  has become invalid. In UTC, with one task of 600 minutes, it is the \<^verbatim>\<open>RangeError\<close>.
\<close>

theorem oversized_task_no_schedule:
  assumes "t \<in> set tasks" and "16 < \<lceil>real_of_int (duration t) / 30\<rceil>"
  shows "generateSchedule_dated tz tasks now = None
       \<or> generateSchedule_dated tz tasks now = Some (Inl RangeError)"
proof -
  from assms(1) have "t \<in> set (sortedTasks tasks)"
    by (simp add: sortedTasks_set)
  moreover from assms(2) have
    "slotsNeeded t \<le> 0 \<or> int (length (generateTimeSlots 9 17)) < slotsNeeded t"
    by (simp add: slotsNeeded_ceiling timeSlots_length)
  ultimately have
    "place_all_dated tz (generateTimeSlots 9 17) (sortedTasks tasks)
        \<lparr>dated_schedule = Map.empty, dated_currentDate = TimeClip now, dated_currentSlotIndex = 0\<rparr> = None
     \<or> place_all_dated tz (generateTimeSlots 9 17) (sortedTasks tasks)
        \<lparr>dated_schedule = Map.empty, dated_currentDate = TimeClip now, dated_currentSlotIndex = 0\<rparr>
        = Some (Inl RangeError)"
    by (rule place_all_dated_unfit)
  then show ?thesis by (auto simp: generateSchedule_dated_def)
qed

theorem oversized_task_no_schedule_witness:
  "example_task 2 500 HardDeadline \<in> set [example_task 1 30 SoftDeadline, example_task 2 500 HardDeadline]
   \<and> 16 < \<lceil>real_of_int (duration (example_task 2 500 HardDeadline)) / 30\<rceil>
   \<and> (generateSchedule_dated new_york_autumn_2026
         [example_task 1 30 SoftDeadline, example_task 2 500 HardDeadline] 1793490300000 = None
      \<or> generateSchedule_dated new_york_autumn_2026
         [example_task 1 30 SoftDeadline, example_task 2 500 HardDeadline] 1793490300000
           = Some (Inl RangeError))"
proof -
  have m: "example_task 2 500 HardDeadline
             \<in> set [example_task 1 30 SoftDeadline, example_task 2 500 HardDeadline]"
    by simp
  have big: "16 < \<lceil>real_of_int (duration (example_task 2 500 HardDeadline)) / 30\<rceil>"
    by (simp add: example_task_def)
  from oversized_task_no_schedule [OF m big, of new_york_autumn_2026 1793490300000] m big
  show ?thesis by blast
qed

theorem oversized_task_range_error_counterexample:
  "\<lceil>real_of_int (duration (example_task 1 600 NoDeadline)) / 30\<rceil> = 20
   \<and> generateSchedule_dated utc_zone [example_task 1 600 NoDeadline] 1793490300000
       = Some (Inl RangeError)"
proof -
  have need: "slotsNeeded (example_task 1 600 NoDeadline) = 20"
    by (simp add: slotsNeeded_def example_task_def)
  have "\<forall>time. time < UTC utc_zone (LocalTime utc_zone time + msPerDay)"
    by (simp add: utc_zone_def msPerDay_def)
  then have "place_task_dated utc_zone (generateTimeSlots 9 17) (example_task 1 600 NoDeadline) st
               = Some (Inl RangeError)" for st
    by (rule place_task_dated_range_error) (simp add: need timeSlots_length)
  moreover have "sortedTasks [example_task 1 600 NoDeadline] = [example_task 1 600 NoDeadline]"
    by (simp add: sortedTasks_def array_sort_def)
  ultimately show ?thesis
    using need by (simp add: generateSchedule_dated_def slotsNeeded_ceiling)
qed




text \<open>
  C8. The claim does not hold of the code: the ranking is stable, so two tasks with the
  same priority rank, importance rank and deadline are placed in their input order, and
  exchanging them in the input exchanges their slots. What holds: two lists that are
  permutations of each other and list the tasks of every ranking key in the same order
  give the same ranked list, hence the same result of the call.
\<close>

theorem same_ranking_same_schedule:
  assumes "mset xs = mset ys"
    and "\<forall>k. filter (\<lambda>t. rank_key t = k) xs = filter (\<lambda>t. rank_key t = k) ys"
  shows "generateSchedule xs today = generateSchedule ys today"
proof -
  have "sort_key rank_key xs = sort_key rank_key ys"
  proof (rule properties_for_sort_key)
    show "mset (sort_key rank_key ys) = mset xs"
      using assms(1) by simp
    show "sorted (map rank_key (sort_key rank_key ys))"
      by simp
    fix k
    have "filter (\<lambda>x. rank_key k = rank_key x) (sort_key rank_key ys)
            = filter (\<lambda>x. rank_key k = rank_key x) ys"
      using sort_key_stable [of rank_key "rank_key k" ys] by (simp add: eq_commute)
    also have "\<dots> = filter (\<lambda>x. rank_key k = rank_key x) xs"
      using assms(2) [rule_format, of "rank_key k"] by (simp add: eq_commute)
    finally show "filter (\<lambda>x. rank_key k = rank_key x) (sort_key rank_key ys)
            = filter (\<lambda>x. rank_key k = rank_key x) xs" .
  qed
  then show ?thesis
    by (simp add: generateSchedule_def sortedTasks_sort_key)
qed

theorem same_ranking_same_schedule_witness:
  "mset [example_task 1 30 SoftDeadline, example_task 2 60 PriorityASAP]
     = mset [example_task 2 60 PriorityASAP, example_task 1 30 SoftDeadline]
   \<and> generateSchedule [example_task 1 30 SoftDeadline, example_task 2 60 PriorityASAP] 0
     = generateSchedule [example_task 2 60 PriorityASAP, example_task 1 30 SoftDeadline] 0"
proof -
  have p: "mset [example_task 1 30 SoftDeadline, example_task 2 60 PriorityASAP]
     = mset [example_task 2 60 PriorityASAP, example_task 1 30 SoftDeadline]"
    by simp
  have f: "\<forall>k. filter (\<lambda>t. rank_key t = k) [example_task 1 30 SoftDeadline, example_task 2 60 PriorityASAP]
             = filter (\<lambda>t. rank_key t = k) [example_task 2 60 PriorityASAP, example_task 1 30 SoftDeadline]"
    by (auto simp: rank_key_def example_task_def)
  from same_ranking_same_schedule [OF p f, of 0] p show ?thesis by blast
qed

theorem permutation_determinism_counterexample:
  "mset [example_task 1 30 SoftDeadline, example_task 2 60 SoftDeadline]
     = mset [example_task 2 60 SoftDeadline, example_task 1 30 SoftDeadline]
   \<and> generateSchedule [example_task 1 30 SoftDeadline, example_task 2 60 SoftDeadline] 0
     \<noteq> generateSchedule [example_task 2 60 SoftDeadline, example_task 1 30 SoftDeadline] 0"
proof -
  have a: "generateSchedule [example_task 1 30 SoftDeadline, example_task 2 60 SoftDeadline] 0 \<noteq> None
           \<and> slot_task (the (generateSchedule [example_task 1 30 SoftDeadline, example_task 2 60 SoftDeadline] 0))
               0 ''9:00'' = Some (example_task 1 30 SoftDeadline)"
    by (simp add: schedule_eval)
  have b: "generateSchedule [example_task 2 60 SoftDeadline, example_task 1 30 SoftDeadline] 0 \<noteq> None
           \<and> slot_task (the (generateSchedule [example_task 2 60 SoftDeadline, example_task 1 30 SoftDeadline] 0))
               0 ''9:00'' = Some (example_task 2 60 SoftDeadline)"
    by (simp add: schedule_eval)
  have "example_task 1 30 SoftDeadline \<noteq> example_task 2 60 SoftDeadline"
    by (simp add: example_task_def)
  with a b show ?thesis by auto
qed

end
